theory Spec2Isabelle
  imports Main
begin

section \<open>The shared counter store\<close>

text \<open>
  The store holds, per rate-limit key, a Redis LIST of request timestamps (epoch
  milliseconds), head = oldest, tail = newest. Redis has no empty lists: a key whose list
  becomes empty disappears, and every list command treats a missing key as the empty list.
  The store is therefore a total function from keys to lists, the empty list standing for
  an absent key. The scripts convert every element with \<^verbatim>\<open>tonumber\<close>; the lists
  only ever hold the timestamps the scripts pushed, so the elements are integers.
\<close>

type_synonym store = "string \<Rightarrow> int list"

text \<open>\<^verbatim>\<open>LINDEX key i\<close>: the element at index \<open>i\<close>, or nil (here \<open>None\<close>) out of range.\<close>

definition LINDEX :: "store \<Rightarrow> string \<Rightarrow> nat \<Rightarrow> int option" where
  "LINDEX s key i = (if i < length (s key) then Some (s key ! i) else None)"

text \<open>\<^verbatim>\<open>LPOP key\<close>: removes the head; on an empty list nothing changes. Both scripts
  discard the reply, so only the effect on the store is kept.\<close>

definition LPOP :: "store \<Rightarrow> string \<Rightarrow> store" where
  "LPOP s key = s(key := tl (s key))"

definition LLEN :: "store \<Rightarrow> string \<Rightarrow> int" where
  "LLEN s key = int (length (s key))"

text \<open>\<^verbatim>\<open>RPUSH key v\<close>: appends at the tail.\<close>

definition RPUSH :: "store \<Rightarrow> string \<Rightarrow> int \<Rightarrow> store" where
  "RPUSH s key v = s(key := s key @ [v])"

section \<open>should-proceed.lua\<close>

text \<open>
  The \<^verbatim>\<open>while true do ... end\<close> loop of should-proceed.lua (lines 26--37). A loop
  that never left would have no result: the loop is a partial function into \<open>option\<close>,
  \<open>None\<close> standing for "does not return".
\<close>

partial_function (option) should_proceed_prune :: "string \<Rightarrow> int \<Rightarrow> int \<Rightarrow> store \<Rightarrow> store option" where
  "should_proceed_prune key now window s =
     (case LINDEX s key 0 of
        None \<Rightarrow> Some s
      | Some head \<Rightarrow>
          if now - head > window then should_proceed_prune key now window (LPOP s key)
          else Some s)"

text \<open>The whole script: the reply (1 or 0) and the store it leaves.\<close>

definition should_proceed_lua :: "store \<Rightarrow> string \<Rightarrow> int \<Rightarrow> int \<Rightarrow> int \<Rightarrow> (int \<times> store) option" where
  "should_proceed_lua s key now window limit =
     (case should_proceed_prune key now window s of
        None \<Rightarrow> None
      | Some s1 \<Rightarrow>
          (let currentSize = LLEN s1 key in
           if currentSize < limit then Some (1, RPUSH s1 key now)
           else Some (0, s1)))"

section \<open>get-remaining-requests.lua\<close>

partial_function (option) get_remaining_prune :: "string \<Rightarrow> int \<Rightarrow> int \<Rightarrow> store \<Rightarrow> store option" where
  "get_remaining_prune key now window s =
     (case LINDEX s key 0 of
        None \<Rightarrow> Some s
      | Some head \<Rightarrow>
          if now - head > window then get_remaining_prune key now window (LPOP s key)
          else Some s)"

definition get_remaining_requests_lua :: "store \<Rightarrow> string \<Rightarrow> int \<Rightarrow> int \<Rightarrow> int \<Rightarrow> (int \<times> store) option" where
  "get_remaining_requests_lua s key now window limit =
     (case get_remaining_prune key now window s of
        None \<Rightarrow> None
      | Some s1 \<Rightarrow>
          (let currentSize = LLEN s1 key;
               remaining = max (limit - currentSize) 0
           in Some (remaining, s1)))"

section \<open>A series of admission checks on one key\<close>

text \<open>
  \<open>admit_calls\<close> runs should-proceed.lua once per caller-supplied \<open>now\<close>, in order, on
  the same key with the same window and limit, threading the store, and collects the
  timestamps of the calls that were admitted (reply 1), oldest first.
\<close>

fun admit_calls :: "string \<Rightarrow> int \<Rightarrow> int \<Rightarrow> int list \<Rightarrow> store \<Rightarrow> (int list \<times> store) option" where
  "admit_calls key window limit [] s = Some ([], s)"
| "admit_calls key window limit (now # nows) s =
     (case should_proceed_lua s key now window limit of
        None \<Rightarrow> None
      | Some (r, s1) \<Rightarrow>
          (case admit_calls key window limit nows s1 of
             None \<Rightarrow> None
           | Some (admitted, s2) \<Rightarrow> Some (if r = 1 then now # admitted else admitted, s2)))"

text \<open>The number of timestamps of \<open>ts\<close> inside the closed interval \<open>[a, a + window]\<close>.\<close>

definition in_interval :: "int \<Rightarrow> int \<Rightarrow> int list \<Rightarrow> nat" where
  "in_interval a window ts = length (filter (\<lambda>t. a \<le> t \<and> t \<le> a + window) ts)"

section \<open>JavaScript values the middleware handles\<close>

text \<open>
  A method declared \<^verbatim>\<open>Promise<T>\<close> hands its caller a promise object, which later
  resolves to a value or rejects. As an object a promise is truthy whatever it settles to,
  and its \<^verbatim>\<open>toString()\<close> is that of \<^verbatim>\<open>Object.prototype\<close>.
\<close>

datatype 'a promise = Resolved 'a | Rejected

definition promise_truthy :: "'a promise \<Rightarrow> bool" where
  "promise_truthy p = True"

definition promise_toString :: "'a promise \<Rightarrow> string" where
  "promise_toString p = ''[object Promise]''"

text \<open>\<^verbatim>\<open>Number.prototype.toString()\<close> on an integer: its decimal digits, \<^verbatim>\<open>-\<close> in
  front of a negative one.\<close>

fun digits10 :: "nat \<Rightarrow> string" where
  "digits10 n =
     (if n < 10 then [''0123456789'' ! n]
      else digits10 (n div 10) @ [''0123456789'' ! (n mod 10)])"

declare digits10.simps [simp del]

definition number_toString :: "int \<Rightarrow> string" where
  "number_toString n = (if n < 0 then CHR ''-'' # digits10 (nat (- n)) else digits10 (nat n))"

text \<open>\<^verbatim>\<open>String.prototype.split(" ")\<close>: the pieces between single spaces, empty pieces
  included.\<close>

fun split_space :: "string \<Rightarrow> string list" where
  "split_space [] = [[]]"
| "split_space (c # cs) =
     (if c = CHR '' '' then [] # split_space cs
      else (case split_space cs of [] \<Rightarrow> [[c]] | w # ws \<Rightarrow> (c # w) # ws))"

section \<open>The limiter interface\<close>

text \<open>
  \<^verbatim>\<open>interface IRateLimiter\<close>. The two asynchronous methods return promises; they work on
  the shared store, so each takes the state \<open>'st\<close> it finds and returns the state it leaves.
\<close>

record 'st IRateLimiter =
  requestLimitPerWindow :: int
  windowSizeInMS :: int
  generateKey :: "int option \<Rightarrow> string \<Rightarrow> string"
  getRemainingRequestsQuota :: "string \<Rightarrow> 'st \<Rightarrow> int promise \<times> 'st"
  shouldProceed :: "string \<Rightarrow> 'st \<Rightarrow> bool promise \<times> 'st"
  getRateLimit :: int

section \<open>The middlewares\<close>

text \<open>
  Of a request the middlewares read the \<^verbatim>\<open>authorization\<close> header, \<^verbatim>\<open>req.user?.id\<close> and
  \<^verbatim>\<open>req.ip\<close>. What they do to the response and to the chain is recorded as the list of
  calls they make on \<^verbatim>\<open>res\<close> and \<^verbatim>\<open>next\<close>, in order; each call is taken to return
  normally, what the framework makes of the calls is not part of the sources.
\<close>

record request =
  authorization :: "string option"
  user_id :: "int option"
  ip :: string

datatype effect = Status int | Json string | Header string string | Next

text \<open>
  \<^verbatim>\<open>authenticateToken\<close>. \<^verbatim>\<open>jwt.verify\<close> belongs to a library and is a parameter:
  \<open>None\<close> when it reports an error, otherwise the \<^verbatim>\<open>id\<close> of the decoded payload
  (which may be missing). \<^verbatim>\<open>!token\<close> holds for \<^verbatim>\<open>undefined\<close> and for the empty string.
\<close>

definition authenticateToken :: "(string \<Rightarrow> int option option) \<Rightarrow> request \<Rightarrow> request \<times> effect list" where
  "authenticateToken verify req =
     (let token = (case authorization req of
                     None \<Rightarrow> None
                   | Some authHeader \<Rightarrow>
                       (let parts = split_space authHeader
                        in if 1 < length parts then Some (parts ! 1) else None))
      in if token = None \<or> token = Some [] then
           (req, [Status 401, Json ''Authentication required, Token missing''])
         else
           (let isTokenBlackListed = False
            in if \<not> isTokenBlackListed then
                 (req, [Status 401, Json ''Authentication required, Token is blacklisted''])
               else
                 (case verify (the token) of
                    None \<Rightarrow> (req, [Status 403, Json ''Invalid or expired token''])
                  | Some decoded \<Rightarrow> (req\<lparr>user_id := decoded\<rparr>, [Next]))))"

text \<open>
  \<^verbatim>\<open>rateLimiter\<close>. The constructor of the limiter class is a parameter \<open>mk\<close>; the two
  environment variables are \<open>None\<close> when unset (or empty) and otherwise the number they
  hold. Neither \<^verbatim>\<open>shouldProceed\<close> nor \<^verbatim>\<open>getRemainingRequestsQuota\<close> is awaited:
  \<open>isAllowed\<close> and \<open>remainingRequests\<close> are the promises themselves.
\<close>

definition rateLimiter ::
  "(int \<Rightarrow> int \<Rightarrow> 'st IRateLimiter) \<Rightarrow> (string \<Rightarrow> int option option) \<Rightarrow> int option \<Rightarrow> int option \<Rightarrow>
   request \<Rightarrow> 'st \<Rightarrow> effect list \<times> 'st" where
  "rateLimiter mk verify envLimit envWindow req st =
     (let (req1, es) = authenticateToken verify req;
          userId = user_id req1;
          ipAddress = ip req1;
          limiter = mk (case envLimit of None \<Rightarrow> 10 | Some n \<Rightarrow> n)
                       (case envWindow of None \<Rightarrow> 60 | Some n \<Rightarrow> n);
          rateLimitKey = generateKey limiter userId ipAddress;
          (isAllowed, st1) = shouldProceed limiter rateLimitKey st;
          (remainingRequests, st2) = getRemainingRequestsQuota limiter rateLimitKey st1;
          rateLimit = getRateLimit limiter;
          es1 = es @ [Header ''X-RateLimit-Limit'' (number_toString rateLimit),
                      Header ''X-RateLimit-Remaining'' (promise_toString remainingRequests)]
      in if \<not> promise_truthy isAllowed then
           (es1 @ [Status 429, Json ''Too many requests, please try again later.''], st2)
         else (es1 @ [Next], st2))"

section \<open>The limiter class\<close>

text \<open>
  Modelled from the spec: the class \<^verbatim>\<open>SlidingWindowRateLimiter\<close>
  (\<^verbatim>\<open>classes/sliding-window-rate-limiter\<close>), which the middleware constructs and which
  implements \<^verbatim>\<open>IRateLimiter\<close>, is not among the sources. The definitions of this section
  follow the spec's sections 3, 4.3, 4.4 and 4.5.

  The limiter configuration (spec section 3).
\<close>

record config =
  cfg_limit :: int
  cfg_window :: int
  allowIfStoreDown :: bool

text \<open>
  Modelled from the spec: what a call finds when it turns to the shared store. The store
  cannot be reached, or it is reached and the atomic operation fails (leaving the record
  as it was), or it is reached and runs the script.
\<close>

datatype backend = Unreachable | Failing store | Healthy store

text \<open>
  Modelled from the spec: \<^verbatim>\<open>shouldProceed\<close> of the missing class (spec sections 4.4,
  4.5 and 7; the README outlines it the same way: Redis down, allow or reject by the
  flag; Redis up, run the script). Store unavailability is checked before the admission
  algorithm and is
  answered by the degraded-mode policy; a script that does not return counts as
  unavailability (spec section 5). \<open>now\<close> is the clock reading of the call.
\<close>

definition facade_shouldProceed :: "config \<Rightarrow> int \<Rightarrow> string \<Rightarrow> backend \<Rightarrow> bool promise \<times> backend" where
  "facade_shouldProceed cfg now key be =
     (case be of
        Unreachable \<Rightarrow> (Resolved (allowIfStoreDown cfg), be)
      | Failing s \<Rightarrow> (Resolved (allowIfStoreDown cfg), be)
      | Healthy s \<Rightarrow>
          (case should_proceed_lua s key now (cfg_window cfg) (cfg_limit cfg) of
             None \<Rightarrow> (Resolved (allowIfStoreDown cfg), be)
           | Some (r, s1) \<Rightarrow> (Resolved (r = 1), Healthy s1)))"

text \<open>
  Modelled from the spec: \<^verbatim>\<open>getRemainingRequestsQuota\<close> of the missing class. With the
  store down and \<open>allowIfStoreDown\<close> set it reports the full configured limit; the spec
  does not say what it reports with the store down and \<open>allowIfStoreDown\<close> unset, so that
  value is the parameter \<open>denied\<close>.
\<close>

definition facade_getRemainingRequestsQuota ::
  "config \<Rightarrow> int \<Rightarrow> int \<Rightarrow> string \<Rightarrow> backend \<Rightarrow> int promise \<times> backend" where
  "facade_getRemainingRequestsQuota cfg denied now key be =
     (let degraded = (if allowIfStoreDown cfg then cfg_limit cfg else denied) in
      case be of
        Unreachable \<Rightarrow> (Resolved degraded, be)
      | Failing s \<Rightarrow> (Resolved degraded, be)
      | Healthy s \<Rightarrow>
          (case get_remaining_requests_lua s key now (cfg_window cfg) (cfg_limit cfg) of
             None \<Rightarrow> (Resolved degraded, be)
           | Some (r, s1) \<Rightarrow> (Resolved r, Healthy s1)))"

text \<open>
  Modelled from the spec: \<^verbatim>\<open>generateKey\<close> of the missing class (spec section 4.3): a
  namespace prefix and the subject id when the caller is identified, another prefix and
  the origin address otherwise. The prefixes are the names the README gives the two keys.
\<close>

definition facade_generateKey :: "int option \<Rightarrow> string \<Rightarrow> string" where
  "facade_generateKey userId ipAddress =
     (case userId of
        Some uid \<Rightarrow> ''RATE_LIMIT_USER_'' @ number_toString uid
      | None \<Rightarrow> ''RATE_LIMIT_IP_'' @ ipAddress)"

text \<open>
  Modelled from the spec: the limiter object the constructor builds from the limit and the
  window (spec section 4.5); \<open>getRateLimit\<close> is the configured limit unchanged. The
  degraded-mode flag, the value \<open>denied\<close> and the clock are fixed beforehand.
\<close>

definition SlidingWindowRateLimiter :: "bool \<Rightarrow> int \<Rightarrow> int \<Rightarrow> int \<Rightarrow> int \<Rightarrow> backend IRateLimiter" where
  "SlidingWindowRateLimiter allow denied now limit window =
     (let cfg = \<lparr>cfg_limit = limit, cfg_window = window, allowIfStoreDown = allow\<rparr> in
      \<lparr>requestLimitPerWindow = limit,
       windowSizeInMS = window,
       generateKey = facade_generateKey,
       getRemainingRequestsQuota = facade_getRemainingRequestsQuota cfg denied now,
       shouldProceed = facade_shouldProceed cfg now,
       getRateLimit = limit\<rparr>)"

section \<open>The pruning loops in closed form\<close>

lemma LINDEX_head: "LINDEX s key 0 = (case s key of [] \<Rightarrow> None | h # _ \<Rightarrow> Some h)"
  by (simp add: LINDEX_def split: list.split)

lemma LPOP_same: "LPOP s key key = tl (s key)"
  by (simp add: LPOP_def)

lemma LPOP_overwrite: "(LPOP s key)(key := xs) = s(key := xs)"
  by (simp add: LPOP_def)

lemma should_proceed_prune_list:
  "s key = xs \<Longrightarrow>
   should_proceed_prune key now window s =
     Some (s(key := dropWhile (\<lambda>t. now - t > window) xs))"
proof (induction xs arbitrary: s)
  case Nil
  then have "s(key := []) = s" by auto
  with Nil show ?case
    by (subst should_proceed_prune.simps) (simp add: LINDEX_head)
next
  case (Cons h t)
  show ?case
  proof (cases "now - h > window")
    case True
    have "LPOP s key key = t" using Cons.prems by (simp add: LPOP_same)
    then have "should_proceed_prune key now window (LPOP s key) =
            Some ((LPOP s key)(key := dropWhile (\<lambda>t. now - t > window) t))"
      by (rule Cons.IH)
    with True Cons.prems show ?thesis
      by (subst should_proceed_prune.simps) (simp add: LINDEX_head LPOP_overwrite)
  next
    case False
    have "s(key := h # t) = s" using Cons.prems by auto
    with False Cons.prems show ?thesis
      by (subst should_proceed_prune.simps) (simp add: LINDEX_head)
  qed
qed

lemma should_proceed_prune_closed:
  "should_proceed_prune key now window s =
     Some (s(key := dropWhile (\<lambda>t. now - t > window) (s key)))"
  by (rule should_proceed_prune_list) simp

lemma get_remaining_prune_list:
  "s key = xs \<Longrightarrow>
   get_remaining_prune key now window s =
     Some (s(key := dropWhile (\<lambda>t. now - t > window) xs))"
proof (induction xs arbitrary: s)
  case Nil
  then have "s(key := []) = s" by auto
  with Nil show ?case
    by (subst get_remaining_prune.simps) (simp add: LINDEX_head)
next
  case (Cons h t)
  show ?case
  proof (cases "now - h > window")
    case True
    have "LPOP s key key = t" using Cons.prems by (simp add: LPOP_same)
    then have "get_remaining_prune key now window (LPOP s key) =
            Some ((LPOP s key)(key := dropWhile (\<lambda>t. now - t > window) t))"
      by (rule Cons.IH)
    with True Cons.prems show ?thesis
      by (subst get_remaining_prune.simps) (simp add: LINDEX_head LPOP_overwrite)
  next
    case False
    have "s(key := h # t) = s" using Cons.prems by auto
    with False Cons.prems show ?thesis
      by (subst get_remaining_prune.simps) (simp add: LINDEX_head)
  qed
qed

lemma get_remaining_prune_closed:
  "get_remaining_prune key now window s =
     Some (s(key := dropWhile (\<lambda>t. now - t > window) (s key)))"
  by (rule get_remaining_prune_list) simp

section \<open>The scripts in closed form\<close>

lemma should_proceed_lua_closed:
  "should_proceed_lua s key now window limit =
     (let p = dropWhile (\<lambda>t. now - t > window) (s key)
      in if int (length p) < limit then Some (1, s(key := p @ [now])) else Some (0, s(key := p)))"
  by (simp add: should_proceed_lua_def should_proceed_prune_closed LLEN_def RPUSH_def Let_def)

lemma get_remaining_requests_lua_closed:
  "get_remaining_requests_lua s key now window limit =
     (let p = dropWhile (\<lambda>t. now - t > window) (s key)
      in Some (max (limit - int (length p)) 0, s(key := p)))"
  by (simp add: get_remaining_requests_lua_def get_remaining_prune_closed LLEN_def Let_def)

section \<open>Claims about the two scripts\<close>

text \<open>
  C1: whatever the stored sequence, \<open>now\<close>, the window and the limit, should-proceed.lua
  first drops the expired entries at the head; with \<open>currentSize\<close> the length of what
  is left, it appends \<open>now\<close> at the tail and replies 1 (admitted) if
  \<open>currentSize < limit\<close>, and otherwise replies 0 (rejected) and leaves the sequence as
  pruning left it.
\<close>

theorem admit_prunes_then_decides:
  "(let pruned = dropWhile (\<lambda>t. now - t > window) (s key)
    in (int (length pruned) < limit \<longrightarrow>
          should_proceed_lua s key now window limit = Some (1, s(key := pruned @ [now])))
     \<and> (\<not> int (length pruned) < limit \<longrightarrow>
          should_proceed_lua s key now window limit = Some (0, s(key := pruned))))"
  by (simp add: should_proceed_lua_closed Let_def)

theorem admit_prunes_then_decides_witness:
  "should_proceed_lua ((\<lambda>_. [])(''k'' := [0, 100, 200])) ''k'' 1001 1000 3
     = Some (1, (\<lambda>_. [])(''k'' := [100, 200, 1001]))
   \<and> should_proceed_lua ((\<lambda>_. [])(''k'' := [0, 100, 200])) ''k'' 300 1000 3
     = Some (0, (\<lambda>_. [])(''k'' := [0, 100, 200]))"
  using admit_prunes_then_decides [where now = 1001 and window = 1000 and limit = 3
          and key = "''k''" and s = "(\<lambda>_. [])(''k'' := [0, 100, 200])"]
        admit_prunes_then_decides [where now = 300 and window = 1000 and limit = 3
          and key = "''k''" and s = "(\<lambda>_. [])(''k'' := [0, 100, 200])"]
  by (simp add: Let_def)

text \<open>
  C4: get-remaining-requests.lua replies \<open>max (limit - currentSize) 0\<close>, where
  \<open>currentSize\<close> is the length of the sequence once the expired head entries are gone;
  the sequence it leaves is the pruned one, nothing appended; the reply is never negative.
\<close>

theorem remaining_is_clamped_difference:
  "(let pruned = dropWhile (\<lambda>t. now - t > window) (s key)
    in get_remaining_requests_lua s key now window limit
         = Some (max (limit - int (length pruned)) 0, s(key := pruned))
       \<and> 0 \<le> max (limit - int (length pruned)) 0)"
  by (simp add: get_remaining_requests_lua_closed Let_def)

text \<open>
  C6: on equal inputs the pruning loop of should-proceed.lua and that of
  get-remaining-requests.lua both return, and return the same store.
\<close>

theorem prune_steps_coincide:
  "should_proceed_prune key now window s = get_remaining_prune key now window s
   \<and> (\<exists>s'. should_proceed_prune key now window s = Some s'
            \<and> get_remaining_prune key now window s = Some s')"
  by (simp add: should_proceed_prune_closed get_remaining_prune_closed)


text \<open>
  C5: in both scripts the oldest entry \<open>t\<close> is removed exactly when \<open>now - t\<close> is
  strictly greater than the window. An entry whose age equals the window is kept and is
  counted in \<open>currentSize\<close>: the admit decision and the remaining quota are taken on the
  whole sequence.
\<close>

theorem prune_boundary_is_strict:
  "s key = t # rest \<longrightarrow>
     should_proceed_prune key now window s
       = Some (s(key := if now - t > window then dropWhile (\<lambda>u. now - u > window) rest
                        else t # rest))
   \<and> get_remaining_prune key now window s
       = Some (s(key := if now - t > window then dropWhile (\<lambda>u. now - u > window) rest
                        else t # rest))
   \<and> (now - t = window \<longrightarrow>
        should_proceed_lua s key now window limit
          = Some (if int (length (t # rest)) < limit then (1, s(key := t # rest @ [now]))
                  else (0, s))
      \<and> get_remaining_requests_lua s key now window limit
          = Some (max (limit - int (length (t # rest))) 0, s))"
proof (intro impI conjI)
  assume k: "s key = t # rest"
  show "should_proceed_prune key now window s
       = Some (s(key := if now - t > window then dropWhile (\<lambda>u. now - u > window) rest
                        else t # rest))"
    using k by (simp add: should_proceed_prune_closed)
  show "get_remaining_prune key now window s
       = Some (s(key := if now - t > window then dropWhile (\<lambda>u. now - u > window) rest
                        else t # rest))"
    using k by (simp add: get_remaining_prune_closed)
  assume b: "now - t = window"
  have same: "s(key := t # rest) = s" using k by auto
  show "should_proceed_lua s key now window limit
          = Some (if int (length (t # rest)) < limit then (1, s(key := t # rest @ [now]))
                  else (0, s))"
    using k b same by (simp add: should_proceed_lua_closed)
  show "get_remaining_requests_lua s key now window limit
          = Some (max (limit - int (length (t # rest))) 0, s)"
    using k b same by (simp add: get_remaining_requests_lua_closed)
qed

theorem prune_boundary_is_strict_witness:
  "should_proceed_lua ((\<lambda>_. [])(''k'' := [0, 100])) ''k'' 1000 1000 3
     = Some (1, (\<lambda>_. [])(''k'' := [0, 100, 1000]))
   \<and> get_remaining_requests_lua ((\<lambda>_. [])(''k'' := [0, 100])) ''k'' 1000 1000 3
     = Some (1, (\<lambda>_. [])(''k'' := [0, 100]))
   \<and> should_proceed_prune ''k'' 1001 1000 ((\<lambda>_. [])(''k'' := [0, 100]))
     = Some ((\<lambda>_. [])(''k'' := [100]))
   \<and> get_remaining_prune ''k'' 1001 1000 ((\<lambda>_. [])(''k'' := [0, 100]))
     = Some ((\<lambda>_. [])(''k'' := [100]))"
  using prune_boundary_is_strict [where now = 1000 and window = 1000 and limit = 3 and t = 0
          and rest = "[100]" and key = "''k''" and s = "(\<lambda>_. [])(''k'' := [0, 100])"]
        prune_boundary_is_strict [where now = 1001 and window = 1000 and limit = 3 and t = 0
          and rest = "[100]" and key = "''k''" and s = "(\<lambda>_. [])(''k'' := [0, 100])"]
  by simp

text \<open>
  C10: the pruning loop of either script returns for every stored sequence, and so do the
  scripts: an iteration that does not stop removes the head, which makes the sequence
  strictly shorter.
\<close>

theorem prune_loops_terminate:
  "(\<exists>s'. should_proceed_prune key now window s = Some s')
   \<and> (\<exists>s'. get_remaining_prune key now window s = Some s')
   \<and> (\<forall>head. LINDEX s key 0 = Some head \<and> now - head > window \<longrightarrow>
         length (LPOP s key key) < length (s key))
   \<and> (\<exists>r. should_proceed_lua s key now window limit = Some r)
   \<and> (\<exists>r. get_remaining_requests_lua s key now window limit = Some r)"
  by (simp add: should_proceed_prune_closed get_remaining_prune_closed LINDEX_head LPOP_same
      should_proceed_lua_closed get_remaining_requests_lua_closed Let_def split: list.split)

theorem prune_loops_terminate_witness:
  "LINDEX ((\<lambda>_. [])(''k'' := [0, 100])) ''k'' 0 = Some 0 \<and> (1001::int) - 0 > 1000
   \<and> length (LPOP ((\<lambda>_. [])(''k'' := [0, 100])) ''k'' ''k'')
       < length (((\<lambda>_. [])(''k'' := [0, 100])) ''k'')
   \<and> (\<exists>s'. should_proceed_prune ''k'' 1001 1000 ((\<lambda>_. [])(''k'' := [0, 100])) = Some s')"
  using prune_loops_terminate [where now = 1001 and window = 1000 and limit = 3
          and key = "''k''" and s = "(\<lambda>_. [])(''k'' := [0, 100])"]
  by (simp add: LINDEX_head)

section \<open>Series of admission checks\<close>

lemma in_interval_append:
  "in_interval a window (xs @ ys) = in_interval a window xs + in_interval a window ys"
  by (simp add: in_interval_def)

lemma in_interval_le_length: "in_interval a window xs \<le> length xs"
  by (simp add: in_interval_def)

lemma in_interval_expired:
  assumes "\<forall>t\<in>set xs. now - t > window" and "a \<le> now" and "now \<le> a + window"
  shows "in_interval a window xs = 0"
proof -
  have "\<forall>t\<in>set xs. \<not> (a \<le> t \<and> t \<le> a + window)"
    using assms by fastforce
  then show ?thesis
    by (simp add: in_interval_def)
qed

lemma in_interval_single:
  "in_interval a window [now] = (if a \<le> now \<and> now \<le> a + window then 1 else 0)"
  by (simp add: in_interval_def)

lemma admit_calls_invariant:
  assumes "sorted (b # nows)"
    and "int (length (s key)) \<le> limit"
    and "\<forall>t\<in>set pre. b - t > window"
    and "\<forall>a. int (in_interval a window (pre @ s key)) \<le> limit"
  shows "\<exists>admitted s'. admit_calls key window limit nows s = Some (admitted, s')
           \<and> (\<forall>a. int (in_interval a window (pre @ s key @ admitted)) \<le> limit)
           \<and> int (length (s' key)) \<le> limit"
  using assms
proof (induction nows arbitrary: s b pre)
  case Nil
  then show ?case by simp
next
  case (Cons now nows)
  define gone where "gone = takeWhile (\<lambda>t. now - t > window) (s key)"
  define kept where "kept = dropWhile (\<lambda>t. now - t > window) (s key)"
  have split: "s key = gone @ kept"
    by (simp add: gone_def kept_def)
  have b_le: "b \<le> now" and sorted': "sorted (now # nows)"
    using Cons.prems(1) by simp_all
  have expired: "\<forall>t\<in>set (pre @ gone). now - t > window"
  proof
    fix t assume "t \<in> set (pre @ gone)"
    then consider "t \<in> set pre" | "t \<in> set gone" by auto
    then show "now - t > window"
    proof cases
      case 1
      with Cons.prems(3) have "b - t > window" by simp
      with b_le show ?thesis by simp
    next
      case 2
      then show ?thesis unfolding gone_def by (auto dest: set_takeWhileD)
    qed
  qed
  have kept_le: "int (length kept) \<le> limit"
    using Cons.prems(2) split by simp
  show ?case
  proof (cases "int (length kept) < limit")
    case True
    let ?s1 = "s(key := kept @ [now])"
    have step: "should_proceed_lua s key now window limit = Some (1, ?s1)"
      using True by (simp add: should_proceed_lua_closed kept_def)
    have len1: "int (length (?s1 key)) \<le> limit" using True by simp
    have bound1: "\<forall>a. int (in_interval a window ((pre @ gone) @ ?s1 key)) \<le> limit"
    proof
      fix a
      show "int (in_interval a window ((pre @ gone) @ ?s1 key)) \<le> limit"
      proof (cases "a \<le> now \<and> now \<le> a + window")
        case inside: True
        then have "in_interval a window (pre @ gone) = 0"
          using expired by (intro in_interval_expired [where now = now]) auto
        moreover have "in_interval a window kept \<le> length kept"
          by (rule in_interval_le_length)
        ultimately show ?thesis
          using True inside by (simp add: in_interval_append in_interval_single)
      next
        case False
        then have "in_interval a window ((pre @ gone) @ ?s1 key) = in_interval a window (pre @ s key)"
          by (simp add: in_interval_append in_interval_single split)
        with Cons.prems(4) show ?thesis by simp
      qed
    qed
    from Cons.IH [where s = ?s1 and b = now and pre = "pre @ gone", OF sorted' len1 expired bound1]
    obtain admitted s' where
      rest: "admit_calls key window limit nows ?s1 = Some (admitted, s')"
      and ok: "\<forall>a. int (in_interval a window ((pre @ gone) @ ?s1 key @ admitted)) \<le> limit"
      and len: "int (length (s' key)) \<le> limit"
      by blast
    have call: "admit_calls key window limit (now # nows) s = Some (now # admitted, s')"
      using step rest by simp
    have eq: "(pre @ gone) @ ?s1 key @ admitted = pre @ s key @ now # admitted"
      by (simp add: split)
    have "\<forall>a. int (in_interval a window (pre @ s key @ now # admitted)) \<le> limit"
      using ok unfolding eq .
    with call len show ?thesis by blast
  next
    case False
    let ?s1 = "s(key := kept)"
    have step: "should_proceed_lua s key now window limit = Some (0, ?s1)"
      using False by (simp add: should_proceed_lua_closed kept_def)
    have len1: "int (length (?s1 key)) \<le> limit" using kept_le by simp
    have bound1: "\<forall>a. int (in_interval a window ((pre @ gone) @ ?s1 key)) \<le> limit"
      using Cons.prems(4) by (simp add: split)
    from Cons.IH [where s = ?s1 and b = now and pre = "pre @ gone", OF sorted' len1 expired bound1]
    obtain admitted s' where
      rest: "admit_calls key window limit nows ?s1 = Some (admitted, s')"
      and ok: "\<forall>a. int (in_interval a window ((pre @ gone) @ ?s1 key @ admitted)) \<le> limit"
      and len: "int (length (s' key)) \<le> limit"
      by blast
    have call: "admit_calls key window limit (now # nows) s = Some (admitted, s')"
      using step rest by simp
    have eq: "(pre @ gone) @ ?s1 key @ admitted = pre @ s key @ admitted"
      by (simp add: split)
    have "\<forall>a. int (in_interval a window (pre @ s key @ admitted)) \<le> limit"
      using ok unfolding eq .
    with call len show ?thesis by blast
  qed
qed


text \<open>
  C2: from an empty record for the key, whatever the series of admission checks with
  nondecreasing \<open>now\<close> values (and a limit that is not negative), the admitted timestamps
  inside any closed interval of length \<open>window\<close> number at most \<open>limit\<close>, and the stored
  sequence never holds more than \<open>limit\<close> entries; a call that finds exactly \<open>limit\<close>
  entries after pruning is rejected.
\<close>

theorem admitted_in_any_window_at_most_limit:
  "(sorted nows \<and> 0 \<le> limit \<and> s key = [] \<longrightarrow>
      (\<exists>admitted s'. admit_calls key window limit nows s = Some (admitted, s')
         \<and> (\<forall>a. int (in_interval a window admitted) \<le> limit)
         \<and> int (length (s' key)) \<le> limit))
   \<and> (int (length (dropWhile (\<lambda>t. now - t > window) (s0 key))) = limit \<longrightarrow>
        should_proceed_lua s0 key now window limit
          = Some (0, s0(key := dropWhile (\<lambda>t. now - t > window) (s0 key))))"
proof (intro conjI impI)
  assume a: "sorted nows \<and> 0 \<le> limit \<and> s key = []"
  define b where "b = (if nows = [] then 0 else hd nows)"
  have "sorted (b # nows)"
    using a by (cases nows) (simp_all add: b_def)
  moreover have "int (length (s key)) \<le> limit" using a by simp
  moreover have "\<forall>t\<in>set []. b - t > window" by simp
  moreover have "\<forall>a. int (in_interval a window ([] @ s key)) \<le> limit"
    using a by (simp add: in_interval_def)
  ultimately have "\<exists>admitted s'. admit_calls key window limit nows s = Some (admitted, s')
           \<and> (\<forall>a. int (in_interval a window ([] @ s key @ admitted)) \<le> limit)
           \<and> int (length (s' key)) \<le> limit"
    by (rule admit_calls_invariant)
  then show "\<exists>admitted s'. admit_calls key window limit nows s = Some (admitted, s')
         \<and> (\<forall>a. int (in_interval a window admitted) \<le> limit)
         \<and> int (length (s' key)) \<le> limit"
    using a by simp
next
  assume "int (length (dropWhile (\<lambda>t. now - t > window) (s0 key))) = limit"
  then show "should_proceed_lua s0 key now window limit
          = Some (0, s0(key := dropWhile (\<lambda>t. now - t > window) (s0 key)))"
    by (simp add: should_proceed_lua_closed Let_def)
qed

theorem admitted_in_any_window_at_most_limit_witness:
  "sorted [0, 100, 200, 300, 1101 :: int]
   \<and> admit_calls ''k'' 1000 3 [0, 100, 200, 300, 1101] (\<lambda>_. [])
       = Some ([0, 100, 200, 1101], (\<lambda>_. [])(''k'' := [200, 1101]))
   \<and> (\<forall>a. int (in_interval a 1000 [0, 100, 200, 1101]) \<le> 3)
   \<and> should_proceed_lua ((\<lambda>_. [])(''k'' := [0, 100, 200])) ''k'' 300 1000 3
       = Some (0, (\<lambda>_. [])(''k'' := [0, 100, 200]))"
proof -
  have run: "admit_calls ''k'' 1000 3 [0, 100, 200, 300, 1101] (\<lambda>_. [])
       = Some ([0, 100, 200, 1101], (\<lambda>_. [])(''k'' := [200, 1101]))"
    by (simp add: should_proceed_lua_closed)
  show ?thesis
    using run
      admitted_in_any_window_at_most_limit [where nows = "[0, 100, 200, 300, 1101]"
        and limit = 3 and window = 1000 and key = "''k''" and s = "\<lambda>_. []"
        and now = 300 and ?s0.0 = "(\<lambda>_. [])(''k'' := [0, 100, 200])"]
    by simp
qed

section \<open>The middleware and the limiter\<close>

lemma authenticateToken_effects:
  "snd (authenticateToken verify req) = [Status 401, Json ''Authentication required, Token missing'']
   \<or> snd (authenticateToken verify req) = [Status 401, Json ''Authentication required, Token is blacklisted'']"
  by (simp add: authenticateToken_def Let_def)

lemma rateLimiter_effects:
  "fst (rateLimiter mk verify envLimit envWindow req st) =
     snd (authenticateToken verify req) @
     [Header ''X-RateLimit-Limit''
        (number_toString (getRateLimit (mk (case envLimit of None \<Rightarrow> 10 | Some n \<Rightarrow> n)
                                           (case envWindow of None \<Rightarrow> 60 | Some n \<Rightarrow> n)))),
      Header ''X-RateLimit-Remaining'' ''[object Promise]'',
      Next]"
  by (simp add: rateLimiter_def Let_def promise_truthy_def promise_toString_def
      split: prod.split)


text \<open>
  C3: the middleware is to call \<open>next\<close> exactly when the admission check admits, and to
  answer 429 with a too-many-requests message, without calling \<open>next\<close>, when it rejects.
  The code tests the promise \<^verbatim>\<open>shouldProceed\<close> returned, not the value it resolves to.
  Below, the limit is 1 and the key already holds one timestamp inside the window: the
  admission check resolves to false, yet the middleware makes no \<open>Status 429\<close> call and
  calls \<open>next\<close>.
\<close>

theorem rateLimiter_forwards_rejected_request:
  "(let req = \<lparr>authorization = None, user_id = None, ip = ''10.0.0.1''\<rparr>;
        mk = SlidingWindowRateLimiter False 0 150;
        key = ''RATE_LIMIT_IP_10.0.0.1'';
        be = Healthy ((\<lambda>_. [])(key := [100]))
    in generateKey (mk 1 1000) (user_id req) (ip req) = key
     \<and> fst (shouldProceed (mk 1 1000) key be) = Resolved False
     \<and> fst (rateLimiter mk (\<lambda>_. None) (Some 1) (Some 1000) req be)
         = [Status 401, Json ''Authentication required, Token missing'',
            Header ''X-RateLimit-Limit'' ''1'',
            Header ''X-RateLimit-Remaining'' ''[object Promise]'',
            Next])"
  by (simp add: rateLimiter_effects authenticateToken_def SlidingWindowRateLimiter_def
      facade_generateKey_def facade_shouldProceed_def should_proceed_lua_closed
      number_toString_def digits10.simps Let_def)


text \<open>
  C8: \<^verbatim>\<open>X-RateLimit-Remaining\<close> is to carry the quota inspector's result as a decimal
  integer string, \<^verbatim>\<open>X-RateLimit-Limit\<close> the configured limit. The code renders the
  promise \<^verbatim>\<open>getRemainingRequestsQuota\<close> returned, not the number it resolves to.
  Below, the limit is 3 and the inspector resolves to 1: the limit header is \<open>''3''\<close>,
  the remaining header is the text of a promise object, not \<open>''1''\<close>.
\<close>

theorem rateLimiter_remaining_header_is_promise_text:
  "(let req = \<lparr>authorization = None, user_id = None, ip = ''10.0.0.1''\<rparr>;
        mk = SlidingWindowRateLimiter False 0 150;
        key = ''RATE_LIMIT_IP_10.0.0.1'';
        be = Healthy ((\<lambda>_. [])(key := [100]));
        be1 = snd (shouldProceed (mk 3 1000) key be)
    in generateKey (mk 3 1000) (user_id req) (ip req) = key
     \<and> fst (getRemainingRequestsQuota (mk 3 1000) key be1) = Resolved 1
     \<and> number_toString 1 = ''1''
     \<and> fst (rateLimiter mk (\<lambda>_. None) (Some 3) (Some 1000) req be)
         = [Status 401, Json ''Authentication required, Token missing'',
            Header ''X-RateLimit-Limit'' ''3'',
            Header ''X-RateLimit-Remaining'' ''[object Promise]'',
            Next])"
  by (simp add: rateLimiter_effects authenticateToken_def SlidingWindowRateLimiter_def
      facade_generateKey_def facade_shouldProceed_def should_proceed_lua_closed
      facade_getRemainingRequestsQuota_def get_remaining_requests_lua_closed
      number_toString_def digits10.simps Let_def)

text \<open>
  C7: when the store cannot be reached or the atomic operation fails, the degraded-mode
  policy decides and the stored record plays no part: \<open>shouldProceed\<close> resolves to
  \<open>allowIfStoreDown\<close> and leaves the backend as it was, and with \<open>allowIfStoreDown\<close>
  set the remaining quota is the full configured limit. With \<open>allowIfStoreDown\<close> unset
  the answer is the one a quota breach gets from a healthy store (resolved, false). On
  every backend the promise of \<open>shouldProceed\<close> resolves; it never rejects.
\<close>

theorem degraded_mode_policy_decides:
  "(be = Unreachable \<or> be = Failing s \<longrightarrow>
      facade_shouldProceed cfg now key be = (Resolved (allowIfStoreDown cfg), be)
      \<and> (allowIfStoreDown cfg \<longrightarrow>
           facade_getRemainingRequestsQuota cfg denied now key be
             = (Resolved (cfg_limit cfg), be)))
   \<and> (\<not> int (length (dropWhile (\<lambda>t. now - t > cfg_window cfg) (s key))) < cfg_limit cfg \<longrightarrow>
        fst (facade_shouldProceed cfg now key (Healthy s)) = Resolved False)
   \<and> (\<exists>b be'. facade_shouldProceed cfg now key be0 = (Resolved b, be'))"
proof (intro conjI impI)
  assume "be = Unreachable \<or> be = Failing s"
  then show "facade_shouldProceed cfg now key be = (Resolved (allowIfStoreDown cfg), be)"
    by (auto simp: facade_shouldProceed_def)
next
  assume "be = Unreachable \<or> be = Failing s" and "allowIfStoreDown cfg"
  then show "facade_getRemainingRequestsQuota cfg denied now key be
             = (Resolved (cfg_limit cfg), be)"
    by (auto simp: facade_getRemainingRequestsQuota_def)
next
  assume "\<not> int (length (dropWhile (\<lambda>t. now - t > cfg_window cfg) (s key))) < cfg_limit cfg"
  then show "fst (facade_shouldProceed cfg now key (Healthy s)) = Resolved False"
    by (simp add: facade_shouldProceed_def should_proceed_lua_closed Let_def)
next
  show "\<exists>b be'. facade_shouldProceed cfg now key be0 = (Resolved b, be')"
    by (cases be0)
       (auto simp: facade_shouldProceed_def should_proceed_lua_closed Let_def)
qed

theorem degraded_mode_policy_decides_witness:
  "facade_shouldProceed \<lparr>cfg_limit = 3, cfg_window = 1000, allowIfStoreDown = True\<rparr>
       150 ''k'' Unreachable = (Resolved True, Unreachable)
   \<and> facade_getRemainingRequestsQuota \<lparr>cfg_limit = 3, cfg_window = 1000, allowIfStoreDown = True\<rparr>
       0 150 ''k'' Unreachable = (Resolved 3, Unreachable)
   \<and> facade_shouldProceed \<lparr>cfg_limit = 3, cfg_window = 1000, allowIfStoreDown = False\<rparr>
       150 ''k'' (Failing ((\<lambda>_. [])(''k'' := [100])))
       = (Resolved False, Failing ((\<lambda>_. [])(''k'' := [100])))
   \<and> fst (facade_shouldProceed \<lparr>cfg_limit = 1, cfg_window = 1000, allowIfStoreDown = False\<rparr>
       150 ''k'' (Healthy ((\<lambda>_. [])(''k'' := [100])))) = Resolved False"
  using degraded_mode_policy_decides [where be = Unreachable and now = 150 and key = "''k''"
          and denied = 0 and s = "\<lambda>_. []" and be0 = Unreachable
          and cfg = "\<lparr>cfg_limit = 3, cfg_window = 1000, allowIfStoreDown = True\<rparr>"]
        degraded_mode_policy_decides [where be = "Failing ((\<lambda>_. [])(''k'' := [100]))"
          and now = 150 and key = "''k''" and denied = 0 and be0 = Unreachable
          and s = "(\<lambda>_. [])(''k'' := [100])"
          and cfg = "\<lparr>cfg_limit = 3, cfg_window = 1000, allowIfStoreDown = False\<rparr>"]
        degraded_mode_policy_decides [where be = Unreachable
          and now = 150 and key = "''k''" and denied = 0 and be0 = Unreachable
          and s = "(\<lambda>_. [])(''k'' := [100])"
          and cfg = "\<lparr>cfg_limit = 1, cfg_window = 1000, allowIfStoreDown = False\<rparr>"]
  by simp

end
